theory Spec2Isabelle
  imports Main "HOL-Library.Sublist" "HOL-Library.Multiset"
begin

section \<open>The username checker of check.js\<close>

text \<open>
  The program checks a list of user names against one remote endpoint, each attempt routed
  through the proxy a shared round-robin rotator currently points at. The network is
  outside the program: it is a parameter of the model (\<open>remote\<close>), and every effect the
  code performs (a request, a pause, a line written to a file) is appended to a trace.
  Every request is taken to end, with a response or with a thrown error.

  Strings are lists of characters; \<open>length\<close>, \<open>take\<close> and \<open>sublist\<close> stand for the
  \<^verbatim>\<open>.length\<close>, \<^verbatim>\<open>.slice(0, n)\<close> and \<^verbatim>\<open>.includes\<close> of the source, which count the
  code units of a string. Numbers are natural numbers: the counters of the source are
  increased by one at a time from zero and stay far below \<open>2 ^ 53\<close>, where the numbers
  of the language are exact.
\<close>

subsection \<open>Constants\<close>

definition BASE_DELAY_MS :: nat where
  "BASE_DELAY_MS = 120"

definition MIN_LEN :: nat where
  "MIN_LEN = 3"

subsection \<open>Strings\<close>

text \<open>\<^verbatim>\<open>msg.includes(sub)\<close>: \<open>sub\<close> occurs in \<open>msg\<close> as a contiguous run.\<close>

definition str_includes :: "string \<Rightarrow> string \<Rightarrow> bool" where
  "str_includes msg sub = sublist sub msg"

text \<open>The decimal rendering of a number inside a template string.\<close>

definition digit :: "nat \<Rightarrow> char" where
  "digit d = ''0123456789'' ! d"

fun String_nat :: "nat \<Rightarrow> string" where
  "String_nat n =
     (if n < 10 then [digit n] else String_nat (n div 10) @ [digit (n mod 10)])"

declare String_nat.simps [simp del]

subsection \<open>The proxy rotator\<close>

text \<open>
  \<^verbatim>\<open>createProxyRotator(proxies)\<close> closes over the list and a counter \<^verbatim>\<open>i\<close> that starts
  at zero. The record holds both; \<open>cursor\<close> is the counter. The list is never changed.
\<close>

record rotator =
  proxies :: "string list"
  cursor :: nat

definition createProxyRotator :: "string list \<Rightarrow> rotator" where
  "createProxyRotator ps = \<lparr>proxies = ps, cursor = 0\<rparr>"

definition current :: "rotator \<Rightarrow> string option" where
  "current r =
     (if length (proxies r) \<noteq> 0
      then Some (proxies r ! (cursor r mod length (proxies r)))
      else None)"

text \<open>\<^verbatim>\<open>next()\<close> increases the counter, then reads as \<open>current\<close> does.\<close>

definition next_proxy :: "rotator \<Rightarrow> rotator \<times> string option" where
  "next_proxy r =
     (let r' = r\<lparr>cursor := cursor r + 1\<rparr>
      in (r', if length (proxies r') \<noteq> 0
              then Some (proxies r' ! (cursor r' mod length (proxies r')))
              else None))"

subsection \<open>The remote call and what it can answer\<close>

text \<open>
  A response carries its status, its content type header (absent: \<open>None\<close>) and what
  reading the body gives: \<open>json_text\<close> is \<^verbatim>\<open>JSON.stringify(j)\<close> when \<^verbatim>\<open>res.json()\<close>
  resolves to a truthy \<^verbatim>\<open>j\<close> and \<open>None\<close> when it rejects or gives a falsy value;
  \<open>body_text\<close> is what \<^verbatim>\<open>res.text()\<close> resolves to, \<open>None\<close> when it rejects.
\<close>

record response =
  status :: nat
  content_type :: "string option"
  json_text :: "string option"
  body_text :: "string option"

text \<open>\<^verbatim>\<open>res.ok\<close> of the fetch interface: the status is in the range 200 to 299.\<close>

definition ok :: "response \<Rightarrow> bool" where
  "ok res = (200 \<le> status res \<and> status res \<le> 299)"

text \<open>
  A thrown value, as far as the code looks at it: its \<^verbatim>\<open>message\<close> property (\<open>None\<close>
  when there is none) and what \<^verbatim>\<open>String(err)\<close> gives.
\<close>

record js_error =
  message :: "string option"
  as_string :: string

datatype fetch_outcome = Responds response | Throws js_error

datatype event =
    Fetch string "string option"
  | Sleep nat
  | ConsoleLog string
  | WriteFileSync string string
  | CreateWriteStream string
  | StreamWrite string string
  | StreamEnd string

text \<open>
  The network answers a request knowing everything that happened before it, the name asked
  for and the proxy used.
\<close>

type_synonym remote = "event list \<Rightarrow> string \<Rightarrow> string option \<Rightarrow> fetch_outcome"

record world =
  rot :: rotator
  trace :: "event list"

definition emit :: "event \<Rightarrow> world \<Rightarrow> world" where
  "emit e w = w\<lparr>trace := trace w @ [e]\<rparr>"

definition sleep :: "nat \<Rightarrow> world \<Rightarrow> world" where
  "sleep ms w = emit (Sleep ms) w"

definition advance :: "world \<Rightarrow> world" where
  "advance w = w\<lparr>rot := fst (next_proxy (rot w))\<rparr>"

text \<open>
  \<^verbatim>\<open>fetchCheck\<close> sends one request through the given proxy and gives back the response,
  or throws (a proxy address that cannot be used, a failed connection, or the abort after
  \<^verbatim>\<open>REQUEST_TIMEOUT_MS\<close>). The event \<open>Fetch\<close> records the call, one for each attempt,
  also when the call throws before anything is sent.
\<close>

definition fetchCheck :: "remote \<Rightarrow> world \<Rightarrow> string \<Rightarrow> string option \<Rightarrow> world \<times> fetch_outcome" where
  "fetchCheck remote w username proxyUrl =
     (emit (Fetch username proxyUrl) w, remote (trace w) username proxyUrl)"

definition isProxyError :: "js_error \<Rightarrow> bool" where
  "isProxyError err =
     (let msg = (case message err of
                   Some m \<Rightarrow> if m \<noteq> [] then m else as_string err
                 | None \<Rightarrow> as_string err)
      in str_includes msg ''ECONNRESET'' \<or>
         str_includes msg ''ETIMEDOUT'' \<or>
         str_includes msg ''ENOTFOUND'' \<or>
         str_includes msg ''EAI_AGAIN'' \<or>
         str_includes msg ''socket'' \<or>
         str_includes msg ''407'' \<or>
         str_includes msg ''fetch failed'' \<or>
         str_includes msg ''aborted'')"

text \<open>
  \<^verbatim>\<open>safeReadBody\<close>: JSON first when the content type says so, the text otherwise. Once
  \<^verbatim>\<open>res.json()\<close> has read the body, \<^verbatim>\<open>res.text()\<close> has nothing left to read and the
  fallback of the JSON branch is the empty string.
\<close>

definition safeReadBody :: "response \<Rightarrow> string" where
  "safeReadBody res =
     (let ct = (case content_type res of Some c \<Rightarrow> c | None \<Rightarrow> [])
      in if str_includes ct ''application/json''
         then (case json_text res of Some j \<Rightarrow> j | None \<Rightarrow> [])
         else (case body_text res of Some t \<Rightarrow> t | None \<Rightarrow> []))"

subsection \<open>Checking one name\<close>

text \<open>
  The result object of \<^verbatim>\<open>checkUsername\<close>. Its \<^verbatim>\<open>status\<close> is the field \<open>category\<close>
  here, \<open>status\<close> being the status of a response; \<open>code\<close> and \<open>detail\<close> are \<open>None\<close>
  where the object has no such property.
\<close>

record check_result =
  username :: string
  category :: string
  code :: "nat option"
  detail :: "string option"

text \<open>What one pass through the loop body decides: go round again, or return.\<close>

datatype step = Continue | Return check_result

text \<open>The statements of the \<^verbatim>\<open>try\<close> block that follow the request, for a response.\<close>

definition on_response :: "world \<Rightarrow> string \<Rightarrow> response \<Rightarrow> world \<times> step" where
  "on_response w name res =
     (if ok res then
        (w, Return \<lparr>username = name, category = ''available'', code = None, detail = None\<rparr>)
      else if status res = 409 then
        (w, Return \<lparr>username = name, category = ''taken'', code = None, detail = None\<rparr>)
      else if status res = 429 then
        (sleep 250 (advance w), Continue)
      else if status res = 400 then
        (let body = safeReadBody res
         in (w, Return \<lparr>username = name, category = ''invalid'', code = Some 400,
                        detail = Some (take 200 body)\<rparr>))
      else
        (let body = safeReadBody res;
             w1 = advance w
         in if status res \<ge> 500 \<and> status res \<le> 599 then
              (sleep 200 w1, Continue)
            else
              (w1, Return \<lparr>username = name, category = ''error'', code = Some (status res),
                            detail = Some (take 200 body)\<rparr>)))"

text \<open>The \<^verbatim>\<open>catch\<close> block.\<close>

definition on_error :: "world \<Rightarrow> string \<Rightarrow> js_error \<Rightarrow> world \<times> step" where
  "on_error w name err =
     (if isProxyError err then
        (sleep 200 (advance w), Continue)
      else
        (w, Return \<lparr>username = name, category = ''error'', code = None,
                     detail = Some (take 200 (as_string err))\<rparr>))"

text \<open>
  One pass through the loop body: the proxy is read from the rotator, the request is made,
  the \<^verbatim>\<open>try\<close> or the \<^verbatim>\<open>catch\<close> block decides, and the \<^verbatim>\<open>finally\<close> block pauses before
  the \<^verbatim>\<open>continue\<close> or the \<^verbatim>\<open>return\<close> takes effect.
\<close>

definition attempt_body :: "remote \<Rightarrow> world \<Rightarrow> string \<Rightarrow> world \<times> step" where
  "attempt_body remote w name =
     (let proxy = current (rot w);
          (w1, out) = fetchCheck remote w name proxy;
          (w2, s) = (case out of
                       Responds res \<Rightarrow> on_response w1 name res
                     | Throws err \<Rightarrow> on_error w1 name err)
      in (sleep BASE_DELAY_MS w2, s))"

definition retry_limit_result :: "string \<Rightarrow> check_result" where
  "retry_limit_result name =
     \<lparr>username = name, category = ''error'', code = None,
      detail = Some ''retry limit reached''\<rparr>"

text \<open>The \<^verbatim>\<open>for\<close> loop of \<^verbatim>\<open>checkUsername\<close>, from the pass numbered \<open>attempt\<close> on.\<close>

function checkUsername_loop ::
  "remote \<Rightarrow> string \<Rightarrow> nat \<Rightarrow> nat \<Rightarrow> world \<Rightarrow> world \<times> check_result" where
  "checkUsername_loop remote name maxTries attempt w =
     (if attempt < maxTries then
        (let (w', s) = attempt_body remote w name
         in (case s of
               Return r \<Rightarrow> (w', r)
             | Continue \<Rightarrow> checkUsername_loop remote name maxTries (attempt + 1) w'))
      else (w, retry_limit_result name))"
  by pat_completeness auto
termination
  by (relation "measure (\<lambda>(remote, name, maxTries, attempt, w). maxTries - attempt)") auto

declare checkUsername_loop.simps [simp del]

definition checkUsername :: "remote \<Rightarrow> world \<Rightarrow> string \<Rightarrow> nat \<Rightarrow> world \<times> check_result" where
  "checkUsername remote w name maxTries =
     (if length name < MIN_LEN then
        (w, \<lparr>username = name, category = ''invalid'', code = None,
             detail = Some (''min_length_'' @ String_nat MIN_LEN)\<rparr>)
      else checkUsername_loop remote name maxTries 0 w)"

subsection \<open>The run\<close>

text \<open>
  \<open>total\<close>, \<open>available\<close> and \<open>taken\<close> are the counters of the \<^verbatim>\<open>state\<close> object of
  \<^verbatim>\<open>run\<close>; the four lists are its \<^verbatim>\<open>availableList\<close>, \<^verbatim>\<open>takenList\<close>, \<^verbatim>\<open>invalidList\<close>
  and \<^verbatim>\<open>errorList\<close>.
\<close>

record run_state =
  total :: nat
  available :: nat
  taken :: nat
  availableList :: "string list"
  takenList :: "string list"
  invalidList :: "check_result list"
  errorList :: "check_result list"

definition newline :: string where
  "newline = [CHR 0x0A]"

text \<open>\<^verbatim>\<open>x ?? ""\<close> inside a template string, for an optional text and an optional number.\<close>

definition or_empty :: "string option \<Rightarrow> string" where
  "or_empty x = (case x of Some s \<Rightarrow> s | None \<Rightarrow> [])"

definition code_or_empty :: "nat option \<Rightarrow> string" where
  "code_or_empty x = (case x of Some n \<Rightarrow> String_nat n | None \<Rightarrow> [])"

text \<open>
  What the callback of \<^verbatim>\<open>run\<close> does with the result \<open>r\<close> of the name \<open>name\<close>: it files
  the result under its category and writes one line to that category's file. The callback
  has no pause in it, so nothing else runs in between.
\<close>

definition deliver :: "world \<times> run_state \<Rightarrow> string \<Rightarrow> check_result \<Rightarrow> world \<times> run_state" where
  "deliver ws name r =
     (let (w, st) = ws in
      if category r = ''available'' then
        (emit (StreamWrite ''available.txt'' (name @ newline)) w,
         st\<lparr>available := available st + 1, availableList := availableList st @ [name]\<rparr>)
      else if category r = ''taken'' then
        (emit (StreamWrite ''taken.txt'' (name @ newline)) w,
         st\<lparr>taken := taken st + 1, takenList := takenList st @ [name]\<rparr>)
      else if category r = ''invalid'' then
        (emit (StreamWrite ''invalid.txt'' (name @ '' | '' @ or_empty (detail r) @ newline)) w,
         st\<lparr>invalidList := invalidList st @ [r]\<rparr>)
      else
        (emit (StreamWrite ''errors.txt''
                 (name @ '' | '' @ code_or_empty (code r) @ '' | '' @ or_empty (detail r)
                    @ newline)) w,
         st\<lparr>errorList := errorList st @ [r]\<rparr>))"

text \<open>One task of the run: check the name, then file the result.\<close>

definition check_task :: "remote \<Rightarrow> nat \<Rightarrow> world \<times> run_state \<Rightarrow> string \<Rightarrow> world \<times> run_state" where
  "check_task remote maxTries ws name =
     (let (w, st) = ws;
          (w', r) = checkUsername remote w name maxTries
      in deliver (w', st) name r)"

text \<open>The \<^verbatim>\<open>maxTries\<close> of \<^verbatim>\<open>run\<close>.\<close>

definition run_maxTries :: "string list \<Rightarrow> nat" where
  "run_maxTries ps = max 3 (if length ps \<noteq> 0 then length ps * 2 else 3)"

text \<open>
  \<^verbatim>\<open>run\<close>, from the two parsed lists on: the names and the proxies. It gives the trace
  of its effects and the final state, \<open>None\<close> when it returns before setting one up. The
  console and the process title show progress only and are left out, but for the one line
  the early return prints.

  The source hands the tasks to a limiter that keeps up to \<^verbatim>\<open>CONCURRENCY\<close> of them in
  flight, so that their passes interleave at the pauses. Here the tasks run one after
  another in the order of the list, as under a limit of one. What is proved of one task
  (\<open>checkUsername\<close>, \<open>deliver\<close>, \<open>check_task\<close>) is proved from any world and any
  state of the run, whatever other tasks did to the rotator and the lists before.
\<close>

definition output_files :: "string list" where
  "output_files = [''available.txt'', ''taken.txt'', ''invalid.txt'', ''errors.txt'']"

definition initial_state :: "nat \<Rightarrow> run_state" where
  "initial_state n =
     \<lparr>total = n, available = 0, taken = 0,
      availableList = [], takenList = [], invalidList = [], errorList = []\<rparr>"

definition run :: "remote \<Rightarrow> string list \<Rightarrow> string list \<Rightarrow> event list \<times> run_state option" where
  "run remote usernames ps =
     (if length usernames = 0 then
        ([ConsoleLog ''usernames.txt is empty''], None)
      else
        (let w0 = \<lparr>rot = createProxyRotator ps,
                   trace = map (\<lambda>f. WriteFileSync f []) output_files
                             @ map CreateWriteStream output_files\<rparr>;
             maxTries = run_maxTries ps;
             st0 = initial_state (length usernames);
             (w1, st1) = foldl (check_task remote maxTries) (w0, st0) usernames
         in (trace w1 @ map StreamEnd output_files, Some st1)))"

text \<open>The number of calls of \<^verbatim>\<open>fetchCheck\<close> in a trace.\<close>

fun is_fetch :: "event \<Rightarrow> bool" where
  "is_fetch (Fetch name proxy) = True"
| "is_fetch e = False"

definition fetch_count :: "event list \<Rightarrow> nat" where
  "fetch_count es = length (filter is_fetch es)"

subsection \<open>Kinds of outcome\<close>

text \<open>
  The outcomes of one request, named as the design names them. A retryable outcome is a
  rate limit (429), a server error (500 to 599) or a transport failure that
  \<open>isProxyError\<close> matches.
\<close>

fun retryable :: "fetch_outcome \<Rightarrow> bool" where
  "retryable (Responds res) = (status res = 429 \<or> (500 \<le> status res \<and> status res \<le> 599))"
| "retryable (Throws err) = isProxyError err"

text \<open>A decisive outcome is a success (200 to 299), a conflict (409) or a bad request (400).\<close>

fun decisive :: "fetch_outcome \<Rightarrow> bool" where
  "decisive (Responds res) =
     ((200 \<le> status res \<and> status res \<le> 299) \<or> status res = 409 \<or> status res = 400)"
| "decisive (Throws err) = False"

text \<open>An unexpected status is none of the statuses above.\<close>

definition unexpected_status :: "nat \<Rightarrow> bool" where
  "unexpected_status s =
     (\<not> (200 \<le> s \<and> s \<le> 299) \<and> s \<noteq> 409 \<and> s \<noteq> 429 \<and> s \<noteq> 400 \<and>
      \<not> (500 \<le> s \<and> s \<le> 599))"

text \<open>The outcomes on which the rotator is said to move on.\<close>

fun advancing :: "fetch_outcome \<Rightarrow> bool" where
  "advancing (Responds res) =
     (status res = 429 \<or> (500 \<le> status res \<and> status res \<le> 599) \<or>
      unexpected_status (status res))"
| "advancing (Throws err) = isProxyError err"

text \<open>The names a run has filed so far, over its four lists.\<close>

definition filed :: "run_state \<Rightarrow> string list" where
  "filed st =
     availableList st @ takenList st @ map username (invalidList st)
       @ map username (errorList st)"

text \<open>\<open>next()\<close> called for its effect on the rotator alone.\<close>

definition next_only :: "rotator \<Rightarrow> rotator" where
  "next_only r = fst (next_proxy r)"

text \<open>
  The attempts made for one name in a trace: the calls of \<^verbatim>\<open>fetchCheck\<close> with that name.
\<close>

fun is_fetch_of :: "string \<Rightarrow> event \<Rightarrow> bool" where
  "is_fetch_of n (Fetch name proxy) = (name = n)"
| "is_fetch_of n e = False"

definition attempts_of :: "string \<Rightarrow> event list \<Rightarrow> nat" where
  "attempts_of n es = length (filter (is_fetch_of n) es)"

text \<open>
  The body of a response, as text (empty when it cannot be read), and whether its content
  type announces JSON.
\<close>

definition response_body :: "response \<Rightarrow> string" where
  "response_body res = (case body_text res of Some t \<Rightarrow> t | None \<Rightarrow> [])"

definition announces_json :: "response \<Rightarrow> bool" where
  "announces_json res =
     str_includes (case content_type res of Some c \<Rightarrow> c | None \<Rightarrow> []) ''application/json''"

subsection \<open>Sample inputs\<close>

definition fresh_world :: "string list \<Rightarrow> world" where
  "fresh_world ps = \<lparr>rot = createProxyRotator ps, trace = []\<rparr>"

definition plain_response :: "nat \<Rightarrow> string \<Rightarrow> response" where
  "plain_response s body =
     \<lparr>status = s, content_type = None, json_text = None, body_text = Some body\<rparr>"

definition always :: "fetch_outcome \<Rightarrow> remote" where
  "always out = (\<lambda>h n p. out)"

text \<open>A network on which the name \<open>taken1\<close> is taken and every other name is free.\<close>

definition scenario_remote :: remote where
  "scenario_remote =
     (\<lambda>h n p. Responds (plain_response (if n = ''taken1'' then 409 else 200) []))"

text \<open>The error of a request aborted at its timeout, and one that no pattern matches.\<close>

definition abort_error :: js_error where
  "abort_error =
     \<lparr>message = Some ''This operation was aborted'',
      as_string = ''AbortError: This operation was aborted''\<rparr>"

definition url_error :: js_error where
  "url_error = \<lparr>message = Some ''Invalid URL'', as_string = ''TypeError: Invalid URL''\<rparr>"

definition two_proxies :: "string list" where
  "two_proxies = [''http://10.0.0.1:8080'', ''http://10.0.0.2:8080'']"

text \<open>
  A response whose content type is JSON and whose body is the text \<open>[1, 2]\<close>: parsed and
  written out again it is \<open>[1,2]\<close>.
\<close>

definition json_response :: "nat \<Rightarrow> response" where
  "json_response s =
     \<lparr>status = s, content_type = Some ''application/json; charset=utf-8'',
      json_text = Some ''[1,2]'', body_text = Some ''[1, 2]''\<rparr>"

section \<open>Properties\<close>

subsection \<open>Effects on the world\<close>

lemma rot_emit [simp]: "rot (emit e w) = rot w"
  by (simp add: emit_def)

lemma rot_sleep [simp]: "rot (sleep ms w) = rot w"
  by (simp add: sleep_def)

lemma trace_emit [simp]: "trace (emit e w) = trace w @ [e]"
  by (simp add: emit_def)

lemma trace_sleep [simp]: "trace (sleep ms w) = trace w @ [Sleep ms]"
  by (simp add: sleep_def)

lemma trace_advance [simp]: "trace (advance w) = trace w"
  by (simp add: advance_def)

lemma rot_advance [simp]: "rot (advance w) = (rot w)\<lparr>cursor := cursor (rot w) + 1\<rparr>"
  by (simp add: advance_def next_proxy_def Let_def)

lemma fetch_count_append [simp]: "fetch_count (xs @ ys) = fetch_count xs + fetch_count ys"
  by (simp add: fetch_count_def)

lemma fetch_count_single [simp]:
  "fetch_count [Fetch n p] = 1" "fetch_count [Sleep ms] = 0"
  by (simp_all add: fetch_count_def)

lemma next_only_iterate: "(next_only ^^ k) r = r\<lparr>cursor := cursor r + k\<rparr>"
  by (induction k) (simp_all add: next_only_def next_proxy_def Let_def)

subsection \<open>One pass of the loop\<close>

lemma attempt_body_Responds:
  "remote (trace w) name (current (rot w)) = Responds res \<Longrightarrow>
   attempt_body remote w name =
     (sleep BASE_DELAY_MS (fst (on_response (emit (Fetch name (current (rot w))) w) name res)),
      snd (on_response (emit (Fetch name (current (rot w))) w) name res))"
  by (simp add: attempt_body_def fetchCheck_def Let_def case_prod_beta)

lemma attempt_body_Throws:
  "remote (trace w) name (current (rot w)) = Throws err \<Longrightarrow>
   attempt_body remote w name =
     (sleep BASE_DELAY_MS (fst (on_error (emit (Fetch name (current (rot w))) w) name err)),
      snd (on_error (emit (Fetch name (current (rot w))) w) name err))"
  by (simp add: attempt_body_def fetchCheck_def Let_def case_prod_beta)

lemma on_response_fetch_count:
  "fetch_count (trace (fst (on_response w name res))) = fetch_count (trace w)"
  by (simp add: on_response_def Let_def)

lemma on_error_fetch_count:
  "fetch_count (trace (fst (on_error w name err))) = fetch_count (trace w)"
  by (simp add: on_error_def)

text \<open>Every pass makes exactly one request.\<close>

lemma attempt_body_fetch_count:
  "fetch_count (trace (fst (attempt_body remote w name))) = fetch_count (trace w) + 1"
  by (cases "remote (trace w) name (current (rot w))")
     (simp_all add: attempt_body_Responds attempt_body_Throws on_response_fetch_count
        on_error_fetch_count)

lemma on_response_Return:
  "snd (on_response w name res) = Return r \<Longrightarrow>
   username r = name \<and>
   (category r = ''available'' \<or> category r = ''taken'' \<or> category r = ''invalid'' \<or>
    category r = ''error'')"
  by (auto simp: on_response_def Let_def split: if_splits)

lemma on_error_Return:
  "snd (on_error w name err) = Return r \<Longrightarrow> username r = name \<and> category r = ''error''"
  by (auto simp: on_error_def split: if_splits)

lemma attempt_body_Return:
  "snd (attempt_body remote w name) = Return r \<Longrightarrow>
   username r = name \<and>
   (category r = ''available'' \<or> category r = ''taken'' \<or> category r = ''invalid'' \<or>
    category r = ''error'')"
  by (cases "remote (trace w) name (current (rot w))")
     (auto simp: attempt_body_Responds attempt_body_Throws
           dest: on_response_Return on_error_Return)

lemma attempt_body_retryable:
  "retryable (remote (trace w) name (current (rot w))) \<Longrightarrow>
   snd (attempt_body remote w name) = Continue"
  by (cases "remote (trace w) name (current (rot w))")
     (auto simp: attempt_body_Responds attempt_body_Throws on_response_def on_error_def ok_def
        Let_def)

subsection \<open>The loop\<close>

lemma loop_unfold:
  "attempt < maxTries \<Longrightarrow>
   checkUsername_loop remote name maxTries attempt w =
     (case snd (attempt_body remote w name) of
        Return r \<Rightarrow> (fst (attempt_body remote w name), r)
      | Continue \<Rightarrow>
          checkUsername_loop remote name maxTries (attempt + 1) (fst (attempt_body remote w name)))"
  by (subst checkUsername_loop.simps) (simp add: case_prod_beta split: step.splits)

lemma loop_exit:
  "\<not> attempt < maxTries \<Longrightarrow>
   checkUsername_loop remote name maxTries attempt w = (w, retry_limit_result name)"
  by (subst checkUsername_loop.simps) simp

lemma checkUsername_long_name:
  "MIN_LEN \<le> length name \<Longrightarrow>
   checkUsername remote w name maxTries = checkUsername_loop remote name maxTries 0 w"
  by (simp add: checkUsername_def)

lemma String_nat_MIN_LEN: "String_nat MIN_LEN = ''3''"
  by (simp add: String_nat.simps MIN_LEN_def digit_def)

text \<open>
  How a property of the loop is proved: it holds when the passes are used up, when a pass
  returns, and it is carried over a pass that goes round again.
\<close>

lemma loop_cases [case_names exit return continue]:
  assumes "\<And>attempt w. \<not> attempt < maxTries \<Longrightarrow> P attempt w (w, retry_limit_result name)"
    and "\<And>attempt w r. attempt < maxTries \<Longrightarrow> snd (attempt_body remote w name) = Return r \<Longrightarrow>
           P attempt w (fst (attempt_body remote w name), r)"
    and "\<And>attempt w res. attempt < maxTries \<Longrightarrow> snd (attempt_body remote w name) = Continue \<Longrightarrow>
           P (attempt + 1) (fst (attempt_body remote w name)) res \<Longrightarrow> P attempt w res"
  shows "P attempt w (checkUsername_loop remote name maxTries attempt w)"
proof (induction "maxTries - attempt" arbitrary: attempt w)
  case 0
  then have "\<not> attempt < maxTries" by simp
  with assms(1) show ?case
    by (simp add: loop_exit)
next
  case (Suc n)
  then have less: "attempt < maxTries" by simp
  show ?case
  proof (cases "snd (attempt_body remote w name)")
    case Continue
    from Suc.hyps(2) have "n = maxTries - (attempt + 1)" by simp
    then have "P (attempt + 1) (fst (attempt_body remote w name))
              (checkUsername_loop remote name maxTries (attempt + 1)
                 (fst (attempt_body remote w name)))"
      by (rule Suc.hyps(1))
    with less Continue assms(3) show ?thesis
      by (simp add: loop_unfold)
  next
    case (Return r)
    with less assms(2) show ?thesis
      by (simp add: loop_unfold)
  qed
qed

lemma loop_result:
  "username (snd (checkUsername_loop remote name maxTries attempt w)) = name \<and>
   (category (snd (checkUsername_loop remote name maxTries attempt w)) = ''available'' \<or>
    category (snd (checkUsername_loop remote name maxTries attempt w)) = ''taken'' \<or>
    category (snd (checkUsername_loop remote name maxTries attempt w)) = ''invalid'' \<or>
    category (snd (checkUsername_loop remote name maxTries attempt w)) = ''error'')"
proof (rule loop_cases [where P = "\<lambda>attempt w res. username (snd res) = name \<and>
    (category (snd res) = ''available'' \<or> category (snd res) = ''taken'' \<or>
     category (snd res) = ''invalid'' \<or> category (snd res) = ''error'')"], goal_cases)
  case (2 attempt w r)
  from attempt_body_Return [OF this(2)] show ?case by simp
qed (simp_all add: retry_limit_result_def)

lemma loop_fetch_bound:
  "fetch_count (trace (fst (checkUsername_loop remote name maxTries attempt w)))
     \<le> fetch_count (trace w) + (maxTries - attempt)"
  by (rule loop_cases [where P = "\<lambda>attempt w res.
        fetch_count (trace (fst res)) \<le> fetch_count (trace w) + (maxTries - attempt)"])
     (simp_all add: attempt_body_fetch_count)

lemma loop_all_retryable:
  assumes "\<forall>h p. retryable (remote h name p)"
  shows "snd (checkUsername_loop remote name maxTries attempt w) = retry_limit_result name \<and>
   fetch_count (trace (fst (checkUsername_loop remote name maxTries attempt w)))
     = fetch_count (trace w) + (maxTries - attempt)"
proof (rule loop_cases [where P = "\<lambda>attempt w res. snd res = retry_limit_result name \<and>
    fetch_count (trace (fst res)) = fetch_count (trace w) + (maxTries - attempt)"], goal_cases)
  case (2 attempt w r)
  with assms attempt_body_retryable [of remote w name] show ?case by simp
qed (simp_all add: attempt_body_fetch_count)

subsection \<open>Filing the results\<close>

lemma checkUsername_result:
  "username (snd (checkUsername remote w name maxTries)) = name \<and>
   (category (snd (checkUsername remote w name maxTries)) = ''available'' \<or>
    category (snd (checkUsername remote w name maxTries)) = ''taken'' \<or>
    category (snd (checkUsername remote w name maxTries)) = ''invalid'' \<or>
    category (snd (checkUsername remote w name maxTries)) = ''error'')"
  using loop_result [of remote name maxTries 0 w] by (simp add: checkUsername_def)

lemma deliver_filed:
  "username r = name \<Longrightarrow>
   mset (filed (snd (deliver (w, st) name r))) = add_mset name (mset (filed st))"
  by (simp add: deliver_def filed_def)

lemma check_task_filed:
  "mset (filed (snd (check_task remote maxTries (w, st) name))) = add_mset name (mset (filed st))"
  using checkUsername_result [of remote w name maxTries]
  by (simp add: check_task_def case_prod_beta deliver_filed)

lemma check_task_total:
  "total (snd (check_task remote maxTries ws name)) = total (snd ws)"
  by (simp add: check_task_def deliver_def case_prod_beta)

lemma foldl_check_task_filed:
  "mset (filed (snd (foldl (check_task remote maxTries) ws names))) =
     mset (filed (snd ws)) + mset names"
proof (induction names arbitrary: ws)
  case Nil
  show ?case by simp
next
  case (Cons n ns)
  have "mset (filed (snd (check_task remote maxTries ws n))) = add_mset n (mset (filed (snd ws)))"
    using check_task_filed [of remote maxTries "fst ws" "snd ws" n] by simp
  with Cons.IH [of "check_task remote maxTries ws n"] show ?case
    by simp
qed

lemma foldl_check_task_total:
  "total (snd (foldl (check_task remote maxTries) ws names)) = total (snd ws)"
  by (induction names arbitrary: ws) (simp_all add: check_task_total)

lemma run_accounts:
  assumes "usernames \<noteq> []"
  shows "\<exists>st. snd (run remote usernames ps) = Some st \<and> mset (filed st) = mset usernames \<and>
           total st = length usernames"
proof -
  define st0 where "st0 = initial_state (length usernames)"
  define w0 where "w0 = \<lparr>rot = createProxyRotator ps,
      trace = map (\<lambda>f. WriteFileSync f []) output_files @ map CreateWriteStream output_files\<rparr>"
  define fin where "fin = foldl (check_task remote (run_maxTries ps)) (w0, st0) usernames"
  have "snd (run remote usernames ps) = Some (snd fin)"
    using assms by (simp add: run_def Let_def case_prod_beta fin_def w0_def st0_def)
  moreover have "filed st0 = []" and "total st0 = length usernames"
    by (simp_all add: filed_def st0_def initial_state_def)
  then have "mset (filed (snd fin)) = mset usernames" and "total (snd fin) = length usernames"
    by (simp_all add: fin_def foldl_check_task_filed foldl_check_task_total)
  ultimately show ?thesis by simp
qed

subsection \<open>The attempts of a run\<close>

lemma attempts_of_append [simp]:
  "attempts_of n (xs @ ys) = attempts_of n xs + attempts_of n ys"
  by (simp add: attempts_of_def)

lemma attempts_of_single [simp]:
  "attempts_of n [Fetch name p] = (if name = n then 1 else 0)"
  "attempts_of n [Sleep ms] = 0"
  "attempts_of n [StreamWrite f l] = 0"
  by (simp_all add: attempts_of_def)

lemma attempts_of_Nil [simp]: "attempts_of n [] = 0"
  by (simp add: attempts_of_def)

lemma attempts_of_files [simp]:
  "attempts_of n (map (\<lambda>f. WriteFileSync f []) fs) = 0"
  "attempts_of n (map CreateWriteStream fs) = 0"
  "attempts_of n (map StreamEnd fs) = 0"
  by (induction fs) (simp_all add: attempts_of_def)

lemma on_response_attempts_of:
  "attempts_of n (trace (fst (on_response w name res))) = attempts_of n (trace w)"
  by (simp add: on_response_def Let_def)

lemma on_error_attempts_of:
  "attempts_of n (trace (fst (on_error w name err))) = attempts_of n (trace w)"
  by (simp add: on_error_def)

lemma attempt_body_attempts_of:
  "attempts_of n (trace (fst (attempt_body remote w name)))
     = attempts_of n (trace w) + (if name = n then 1 else 0)"
  by (cases "remote (trace w) name (current (rot w))")
     (simp_all add: attempt_body_Responds attempt_body_Throws on_response_attempts_of
        on_error_attempts_of)

lemma loop_attempts_bound:
  "attempts_of n (trace (fst (checkUsername_loop remote name maxTries attempt w)))
     \<le> attempts_of n (trace w) + (if name = n then maxTries - attempt else 0)"
  by (rule loop_cases [where P = "\<lambda>attempt w res. attempts_of n (trace (fst res))
        \<le> attempts_of n (trace w) + (if name = n then maxTries - attempt else 0)"])
     (auto simp: attempt_body_attempts_of)

lemma loop_attempts_retryable:
  assumes "\<forall>h p. retryable (remote h name p)"
  shows "attempts_of n (trace (fst (checkUsername_loop remote name maxTries attempt w)))
     = attempts_of n (trace w) + (if name = n then maxTries - attempt else 0)"
proof (rule loop_cases [where P = "\<lambda>attempt w res. attempts_of n (trace (fst res))
        = attempts_of n (trace w) + (if name = n then maxTries - attempt else 0)"], goal_cases)
  case (2 attempt w r)
  with assms attempt_body_retryable [of remote w name] show ?case by simp
qed (auto simp: attempt_body_attempts_of)

lemma deliver_attempts_of:
  "attempts_of n (trace (fst (deliver (w, st) name r))) = attempts_of n (trace w)"
  by (simp add: deliver_def)

lemma check_task_attempts_bound:
  "attempts_of n (trace (fst (check_task remote maxTries ws name)))
     \<le> attempts_of n (trace (fst ws)) + (if name = n then maxTries else 0)"
  using loop_attempts_bound [of n remote name maxTries 0 "fst ws"]
  by (auto simp: check_task_def case_prod_beta deliver_attempts_of checkUsername_def)

lemma foldl_attempts_bound:
  "attempts_of n (trace (fst (foldl (check_task remote maxTries) ws names)))
     \<le> attempts_of n (trace (fst ws)) + count_list names n * maxTries"
proof (induction names arbitrary: ws)
  case Nil
  show ?case by simp
next
  case (Cons m ms)
  from Cons.IH [of "check_task remote maxTries ws m"]
    check_task_attempts_bound [of n remote maxTries ws m]
  show ?case by (auto split: if_splits)
qed

text \<open>A task whose every request ends in a retryable outcome.\<close>

lemma check_task_retryable:
  assumes "MIN_LEN \<le> length name" and "\<forall>h p. retryable (remote h name p)"
  shows "attempts_of n (trace (fst (check_task remote maxTries ws name)))
           = attempts_of n (trace (fst ws)) + (if name = n then maxTries else 0) \<and>
         snd (check_task remote maxTries ws name)
           = (snd ws)\<lparr>errorList := errorList (snd ws) @ [retry_limit_result name]\<rparr>"
  using assms loop_attempts_retryable [of remote name n maxTries 0 "fst ws"]
    loop_all_retryable [of remote name maxTries 0 "fst ws"]
  by (simp add: check_task_def case_prod_beta deliver_attempts_of checkUsername_long_name
        deliver_def retry_limit_result_def)

lemma foldl_retryable:
  assumes "\<forall>m \<in> set names. MIN_LEN \<le> length m" and "\<forall>h m p. retryable (remote h m p)"
  shows "attempts_of n (trace (fst (foldl (check_task remote maxTries) ws names)))
           = attempts_of n (trace (fst ws)) + count_list names n * maxTries \<and>
         snd (foldl (check_task remote maxTries) ws names)
           = (snd ws)\<lparr>errorList := errorList (snd ws) @ map retry_limit_result names\<rparr>"
  using assms(1)
proof (induction names arbitrary: ws)
  case Nil
  show ?case by simp
next
  case (Cons m ms)
  from Cons.prems assms(2) have m: "MIN_LEN \<le> length m" "\<forall>h p. retryable (remote h m p)"
    by simp_all
  from Cons.prems have "\<forall>k \<in> set ms. MIN_LEN \<le> length k" by simp
  from Cons.IH [OF this, of "check_task remote maxTries ws m"]
    check_task_retryable [where name = m and remote = remote and n = n and ws = ws
      and maxTries = maxTries, OF m]
  show ?case by simp
qed

text \<open>The world and the state a run that is not empty starts its tasks from.\<close>

lemma run_unfold:
  assumes "usernames \<noteq> []"
    and "ws0 = (\<lparr>rot = createProxyRotator ps,
          trace = map (\<lambda>f. WriteFileSync f []) output_files @ map CreateWriteStream output_files\<rparr>,
         initial_state (length usernames))"
  shows "run remote usernames ps =
     (trace (fst (foldl (check_task remote (run_maxTries ps)) ws0 usernames))
        @ map StreamEnd output_files,
      Some (snd (foldl (check_task remote (run_maxTries ps)) ws0 usernames)))"
  using assms by (simp add: run_def Let_def case_prod_beta)

lemma run_attempts_bound:
  "attempts_of n (fst (run remote usernames ps)) \<le> count_list usernames n * run_maxTries ps"
proof (cases "usernames = []")
  case True
  then show ?thesis by (simp add: run_def attempts_of_def)
next
  case False
  define ws0 where "ws0 = (\<lparr>rot = createProxyRotator ps,
          trace = map (\<lambda>f. WriteFileSync f []) output_files @ map CreateWriteStream output_files\<rparr>,
         initial_state (length usernames))"
  have "attempts_of n (trace (fst ws0)) = 0"
    by (simp add: ws0_def)
  with foldl_attempts_bound [of n remote "run_maxTries ps" ws0 usernames]
  show ?thesis
    by (simp add: run_unfold [OF False ws0_def])
qed

lemma run_retryable:
  assumes "usernames \<noteq> []" and "\<forall>m \<in> set usernames. MIN_LEN \<le> length m"
    and "\<forall>h m p. retryable (remote h m p)"
  shows "attempts_of n (fst (run remote usernames ps)) = count_list usernames n * run_maxTries ps \<and>
         snd (run remote usernames ps) =
           Some ((initial_state (length usernames))
                   \<lparr>errorList := map retry_limit_result usernames\<rparr>)"
proof -
  define ws0 where "ws0 = (\<lparr>rot = createProxyRotator ps,
          trace = map (\<lambda>f. WriteFileSync f []) output_files @ map CreateWriteStream output_files\<rparr>,
         initial_state (length usernames))"
  have "attempts_of n (trace (fst ws0)) = 0"
    and "errorList (snd ws0) = []" and "snd ws0 = initial_state (length usernames)"
    by (simp_all add: ws0_def initial_state_def)
  with foldl_retryable [OF assms(2,3), of n "run_maxTries ps" ws0]
  show ?thesis
    by (simp add: run_unfold [OF assms(1) ws0_def])
qed

subsection \<open>Evaluating the model\<close>

lemmas eval_simps =
  checkUsername_def checkUsername_loop.simps attempt_body_def fetchCheck_def on_response_def
  on_error_def ok_def safeReadBody_def str_includes_def sublist_code(3) prefix_code(2)
  isProxyError_def emit_def sleep_def advance_def next_proxy_def next_only_def current_def
  createProxyRotator_def MIN_LEN_def BASE_DELAY_MS_def retry_limit_result_def
  fresh_world_def plain_response_def always_def scenario_remote_def abort_error_def
  url_error_def two_proxies_def Let_def String_nat.simps digit_def run_def run_maxTries_def
  check_task_def deliver_def filed_def output_files_def initial_state_def fetch_count_def newline_def
  or_empty_def code_or_empty_def unexpected_status_def attempts_of_def response_body_def
  announces_json_def json_response_def

section \<open>The claims\<close>

text \<open>
  C1. For every name, \<open>checkUsername\<close> returns one result, for that name, whose category
  is one of \<open>available\<close>, \<open>taken\<close>, \<open>invalid\<close> and \<open>error\<close>: every response and every
  thrown error of the request ends in a result, for any network, any world it starts in
  and any bound on the passes. The task of a name then files that name once, in one of
  the four lists, so that a run which sets out files every name of its list exactly once;
  only a run over the empty list ends without a state.
\<close>

theorem checkUsername_accounts_every_name:
  "username (snd (checkUsername remote w name maxTries)) = name \<and>
   (category (snd (checkUsername remote w name maxTries)) = ''available'' \<or>
    category (snd (checkUsername remote w name maxTries)) = ''taken'' \<or>
    category (snd (checkUsername remote w name maxTries)) = ''invalid'' \<or>
    category (snd (checkUsername remote w name maxTries)) = ''error'') \<and>
   mset (filed (snd (check_task remote maxTries (w, st) name))) = add_mset name (mset (filed st)) \<and>
   (case snd (run remote usernames ps) of
      None \<Rightarrow> usernames = []
    | Some fin \<Rightarrow> mset (filed fin) = mset usernames \<and> total fin = length usernames)"
proof -
  have "case snd (run remote usernames ps) of
      None \<Rightarrow> usernames = []
    | Some fin \<Rightarrow> mset (filed fin) = mset usernames \<and> total fin = length usernames"
  proof (cases "usernames = []")
    case True
    then show ?thesis by (simp add: run_def)
  next
    case False
    from run_accounts [OF this, of remote ps] show ?thesis by auto
  qed
  with checkUsername_result [of remote w name maxTries]
    check_task_filed [of remote maxTries w st name]
  show ?thesis by simp
qed

theorem checkUsername_accounts_every_name_witness:
  "category (snd (checkUsername scenario_remote (fresh_world []) ''taken1'' 3)) = ''taken'' \<and>
   filed (snd (check_task scenario_remote 3 (fresh_world [], initial_state 1) ''taken1''))
     = [''taken1''] \<and>
   (case snd (run scenario_remote [''ab'', ''validname'', ''taken1''] []) of
      None \<Rightarrow> False
    | Some fin \<Rightarrow>
        availableList fin = [''validname''] \<and> takenList fin = [''taken1''] \<and>
        map username (invalidList fin) = [''ab''] \<and> errorList fin = [] \<and>
        mset (filed fin) = mset [''ab'', ''validname'', ''taken1''])"
  using checkUsername_accounts_every_name
    [of scenario_remote "fresh_world []" "''taken1''" 3 "initial_state 1"
        "[''ab'', ''validname'', ''taken1'']" "[]"]
  by (simp add: eval_simps)

text \<open>
  C2. With \<open>P\<close> proxies the bound on the passes that \<open>run\<close> hands to every check is
  \<open>max 3 (2 * P)\<close>: in the trace of a run no name has more attempts than that for each
  time it stands in the list, and one check never makes more requests than that. When
  every request ends in a retryable outcome and the names are long enough, a run makes
  exactly \<open>max 3 (2 * P)\<close> attempts for each time a name stands in the list and files
  every name under \<open>error\<close> with the detail \<open>retry limit reached\<close>, and nothing under
  the other three categories; so does one check.
\<close>

theorem retry_budget:
  "run_maxTries ps = max 3 (2 * length ps) \<and>
   attempts_of name (fst (run remote usernames ps))
     \<le> count_list usernames name * max 3 (2 * length ps) \<and>
   fetch_count (trace (fst (checkUsername remote w name (run_maxTries ps))))
     \<le> fetch_count (trace w) + max 3 (2 * length ps) \<and>
   (MIN_LEN \<le> length name \<and> (\<forall>h p. retryable (remote h name p)) \<longrightarrow>
      snd (checkUsername remote w name (run_maxTries ps)) =
        \<lparr>username = name, category = ''error'', code = None,
         detail = Some ''retry limit reached''\<rparr> \<and>
      fetch_count (trace (fst (checkUsername remote w name (run_maxTries ps))))
        = fetch_count (trace w) + max 3 (2 * length ps)) \<and>
   (usernames \<noteq> [] \<and> (\<forall>m \<in> set usernames. MIN_LEN \<le> length m) \<and>
    (\<forall>h m p. retryable (remote h m p)) \<longrightarrow>
      attempts_of name (fst (run remote usernames ps))
        = count_list usernames name * max 3 (2 * length ps) \<and>
      (case snd (run remote usernames ps) of
         None \<Rightarrow> False
       | Some fin \<Rightarrow>
           availableList fin = [] \<and> takenList fin = [] \<and> invalidList fin = [] \<and>
           mset (errorList fin) =
             mset (map (\<lambda>m. \<lparr>username = m, category = ''error'', code = None,
                               detail = Some ''retry limit reached''\<rparr>) usernames)))"
proof -
  have m: "run_maxTries ps = max 3 (2 * length ps)"
    by (auto simp: run_maxTries_def)
  have a: "attempts_of name (fst (run remote usernames ps))
     \<le> count_list usernames name * run_maxTries ps"
    by (rule run_attempts_bound)
  have b: "fetch_count (trace (fst (checkUsername remote w name (run_maxTries ps))))
     \<le> fetch_count (trace w) + run_maxTries ps"
    using loop_fetch_bound [of remote name "run_maxTries ps" 0 w]
    by (simp add: checkUsername_def)
  have r: "snd (checkUsername remote w name (run_maxTries ps)) =
        \<lparr>username = name, category = ''error'', code = None,
         detail = Some ''retry limit reached''\<rparr> \<and>
      fetch_count (trace (fst (checkUsername remote w name (run_maxTries ps))))
        = fetch_count (trace w) + run_maxTries ps"
    if "MIN_LEN \<le> length name" and "\<forall>h p. retryable (remote h name p)"
    using that loop_all_retryable [of remote name "run_maxTries ps" 0 w]
    by (simp add: checkUsername_long_name retry_limit_result_def)
  have f: "attempts_of name (fst (run remote usernames ps))
        = count_list usernames name * run_maxTries ps \<and>
      (case snd (run remote usernames ps) of
         None \<Rightarrow> False
       | Some fin \<Rightarrow>
           availableList fin = [] \<and> takenList fin = [] \<and> invalidList fin = [] \<and>
           mset (errorList fin) =
             mset (map (\<lambda>m. \<lparr>username = m, category = ''error'', code = None,
                               detail = Some ''retry limit reached''\<rparr>) usernames))"
    if "usernames \<noteq> []" and "\<forall>m \<in> set usernames. MIN_LEN \<le> length m"
      and "\<forall>h m p. retryable (remote h m p)"
  proof -
    have "map retry_limit_result usernames =
        map (\<lambda>m. \<lparr>username = m, category = ''error'', code = None,
                    detail = Some ''retry limit reached''\<rparr>) usernames"
      by (simp add: retry_limit_result_def)
    with run_retryable [OF that, of name ps] show ?thesis
      by (simp add: initial_state_def)
  qed
  from m a b r f show ?thesis by simp
qed

theorem retry_budget_witness:
  "MIN_LEN \<le> length ''dead'' \<and>
   (\<forall>h m p. retryable (always (Throws abort_error) h m p)) \<and>
   run_maxTries [] = 3 \<and> run_maxTries two_proxies = 4 \<and>
   attempts_of ''dead'' (fst (run (always (Throws abort_error)) [''dead''] [])) = 3 \<and>
   attempts_of ''dead'' (fst (run (always (Throws abort_error)) [''dead''] two_proxies)) = 4 \<and>
   (case snd (run (always (Throws abort_error)) [''dead''] two_proxies) of
      None \<Rightarrow> False
    | Some fin \<Rightarrow>
        availableList fin = [] \<and> takenList fin = [] \<and> invalidList fin = [] \<and>
        errorList fin = [\<lparr>username = ''dead'', category = ''error'', code = None,
                          detail = Some ''retry limit reached''\<rparr>]) \<and>
   snd (checkUsername (always (Throws abort_error)) (fresh_world []) ''dead'' (run_maxTries []))
     = \<lparr>username = ''dead'', category = ''error'', code = None,
        detail = Some ''retry limit reached''\<rparr>"
proof -
  have h: "\<forall>h m p. retryable (always (Throws abort_error) h m p)"
    by (simp add: always_def isProxyError_def abort_error_def str_includes_def
          sublist_code(3) prefix_code(2))
  have l: "MIN_LEN \<le> length ''dead''"
    by (simp add: MIN_LEN_def)
  from h l
    retry_budget [of "[]" "''dead''" "always (Throws abort_error)" "[''dead'']" "fresh_world []"]
    retry_budget [of two_proxies "''dead''" "always (Throws abort_error)" "[''dead'']"
      "fresh_world []"]
  show ?thesis
    by (auto simp: two_proxies_def split: option.splits)
qed

text \<open>
  C3, as it is worded, asks that the detail of a 400 be the body of the response cut at
  200 characters. It is not when the content type announces JSON: \<open>safeReadBody\<close> then
  gives the parsed body written out again. For the body \<open>[1, 2]\<close> the detail is \<open>[1,2]\<close>.
\<close>

theorem bad_request_detail_counterexample:
  "status (json_response 400) = 400 \<and>
   take 200 (response_body (json_response 400)) = ''[1, 2]'' \<and>
   detail (snd (checkUsername (always (Responds (json_response 400))) (fresh_world [])
      ''admin'' 3)) = Some ''[1,2]'' \<and>
   detail (snd (checkUsername (always (Responds (json_response 400))) (fresh_world [])
      ''admin'' 3)) \<noteq> Some (take 200 (response_body (json_response 400)))"
  by (simp add: eval_simps)

text \<open>
  C3, amended. In any pass of the loop, whatever the world it starts in: when the request
  is answered with a status from 200 to 299 the check returns the category \<open>available\<close>;
  with 409, \<open>taken\<close>; with 400, \<open>invalid\<close> with the code 400 and a detail of at most
  200 characters, which is the first 200 characters of the body when the content type
  does not announce JSON, and the first 200 characters of the parsed body written out
  again when it does and the body parses to a value that counts as true.
\<close>

theorem decisive_response_categories:
  assumes "attempt < maxTries"
    and "remote (trace w) name (current (rot w)) = Responds res"
  shows "(200 \<le> status res \<and> status res \<le> 299 \<longrightarrow>
            snd (checkUsername_loop remote name maxTries attempt w) =
              \<lparr>username = name, category = ''available'', code = None, detail = None\<rparr>) \<and>
         (status res = 409 \<longrightarrow>
            snd (checkUsername_loop remote name maxTries attempt w) =
              \<lparr>username = name, category = ''taken'', code = None, detail = None\<rparr>) \<and>
         (status res = 400 \<longrightarrow>
            username (snd (checkUsername_loop remote name maxTries attempt w)) = name \<and>
            category (snd (checkUsername_loop remote name maxTries attempt w)) = ''invalid'' \<and>
            code (snd (checkUsername_loop remote name maxTries attempt w)) = Some 400 \<and>
            (case detail (snd (checkUsername_loop remote name maxTries attempt w)) of
               None \<Rightarrow> False
             | Some d \<Rightarrow> length d \<le> 200) \<and>
            (\<not> announces_json res \<longrightarrow>
               detail (snd (checkUsername_loop remote name maxTries attempt w)) =
                 Some (take 200 (response_body res))) \<and>
            (\<forall>j. announces_json res \<and> json_text res = Some j \<longrightarrow>
               detail (snd (checkUsername_loop remote name maxTries attempt w)) =
                 Some (take 200 j)))"
  using assms
  by (simp add: loop_unfold attempt_body_Responds on_response_def ok_def Let_def
        safeReadBody_def announces_json_def response_body_def)

theorem decisive_response_categories_witness:
  "snd (checkUsername (always (Responds (plain_response 204 []))) (fresh_world [])
          ''validname'' 3)
     = \<lparr>username = ''validname'', category = ''available'', code = None, detail = None\<rparr> \<and>
   snd (checkUsername (always (Responds (plain_response 409 []))) (fresh_world [])
          ''taken1'' 3)
     = \<lparr>username = ''taken1'', category = ''taken'', code = None, detail = None\<rparr> \<and>
   \<not> announces_json (plain_response 400 (replicate 250 CHR ''x'')) \<and>
   category (snd (checkUsername (always (Responds (plain_response 400 (replicate 250 CHR ''x''))))
          (fresh_world []) ''admin'' 3)) = ''invalid'' \<and>
   code (snd (checkUsername (always (Responds (plain_response 400 (replicate 250 CHR ''x''))))
          (fresh_world []) ''admin'' 3)) = Some 400 \<and>
   detail (snd (checkUsername (always (Responds (plain_response 400 (replicate 250 CHR ''x''))))
          (fresh_world []) ''admin'' 3)) = Some (replicate 200 CHR ''x'') \<and>
   announces_json (json_response 400) \<and>
   detail (snd (checkUsername (always (Responds (json_response 400))) (fresh_world [])
          ''admin'' 3)) = Some ''[1,2]''"
proof -
  have j: "announces_json (json_response 400)"
    and p: "\<not> announces_json (plain_response 400 (replicate 250 CHR ''x''))"
    by (simp_all add: announces_json_def json_response_def plain_response_def
          str_includes_def sublist_code(3) prefix_code(2))
  from j p
    decisive_response_categories [of 0 3 "always (Responds (plain_response 204 []))"
      "fresh_world []" "''validname''" "plain_response 204 []"]
    decisive_response_categories [of 0 3 "always (Responds (plain_response 409 []))"
      "fresh_world []" "''taken1''" "plain_response 409 []"]
    decisive_response_categories
      [of 0 3 "always (Responds (plain_response 400 (replicate 250 CHR ''x'')))"
      "fresh_world []" "''admin''" "plain_response 400 (replicate 250 CHR ''x'')"]
    decisive_response_categories [of 0 3 "always (Responds (json_response 400))"
      "fresh_world []" "''admin''" "json_response 400"]
  show ?thesis
    by (simp add: checkUsername_def MIN_LEN_def always_def plain_response_def
          json_response_def response_body_def)
qed

text \<open>
  C4. On a rotator created over \<open>P > 0\<close> proxies, after \<open>k\<close> calls of \<^verbatim>\<open>next()\<close> the
  call \<^verbatim>\<open>current()\<close> returns the proxy at index \<open>k mod P\<close>, for every \<open>k\<close>; the
  following call of \<^verbatim>\<open>next()\<close> returns the proxy at index \<open>(k + 1) mod P\<close>.
\<close>

theorem rotator_after_k_advances:
  assumes "ps \<noteq> []"
  shows "current ((next_only ^^ k) (createProxyRotator ps)) = Some (ps ! (k mod length ps)) \<and>
         snd (next_proxy ((next_only ^^ k) (createProxyRotator ps))) =
           Some (ps ! (Suc k mod length ps))"
  using assms unfolding next_only_iterate
  by (simp add: current_def next_proxy_def createProxyRotator_def Let_def)

theorem rotator_after_k_advances_witness:
  "two_proxies \<noteq> [] \<and>
   current ((next_only ^^ 7) (createProxyRotator two_proxies)) = Some ''http://10.0.0.2:8080'' \<and>
   snd (next_proxy ((next_only ^^ 7) (createProxyRotator two_proxies))) =
     Some ''http://10.0.0.1:8080''"
  using rotator_after_k_advances [of two_proxies 7]
  by (simp add: two_proxies_def numeral_2_eq_2 [symmetric])

text \<open>
  C5. A name shorter than \<open>MIN_LEN\<close> gets the category \<open>invalid\<close> with the detail
  \<open>min_length_3\<close> at once: the world is returned as it was, so no request was made and
  the rotator was not touched.
\<close>

theorem short_name_invalid_without_request:
  assumes "length name < MIN_LEN"
  shows "checkUsername remote w name maxTries =
           (w, \<lparr>username = name, category = ''invalid'', code = None,
                detail = Some ''min_length_3''\<rparr>) \<and>
         fetch_count (trace (fst (checkUsername remote w name maxTries))) = fetch_count (trace w)"
  using assms by (simp add: checkUsername_def String_nat_MIN_LEN)

theorem short_name_invalid_without_request_witness:
  "length ''ab'' < MIN_LEN \<and>
   checkUsername scenario_remote (fresh_world two_proxies) ''ab'' 4 =
     (fresh_world two_proxies,
      \<lparr>username = ''ab'', category = ''invalid'', code = None,
       detail = Some ''min_length_3''\<rparr>) \<and>
   fetch_count (trace (fst (checkUsername scenario_remote (fresh_world two_proxies) ''ab'' 4)))
     = 0"
  using short_name_invalid_without_request
    [of "''ab''" scenario_remote "fresh_world two_proxies" 4]
  by (simp add: MIN_LEN_def fresh_world_def fetch_count_def)

text \<open>
  C6, as it is worded, asks that the detail of an unexpected status be the body of the
  response cut at 200 characters. It is not when the content type announces JSON: for a
  403 with the body \<open>[1, 2]\<close> the detail is \<open>[1,2]\<close>, the parsed body written out again.
\<close>

theorem unexpected_status_detail_counterexample:
  "unexpected_status (status (json_response 403)) \<and>
   take 200 (response_body (json_response 403)) = ''[1, 2]'' \<and>
   detail (snd (checkUsername (always (Responds (json_response 403))) (fresh_world two_proxies)
      ''someone'' 4)) = Some ''[1,2]'' \<and>
   detail (snd (checkUsername (always (Responds (json_response 403))) (fresh_world two_proxies)
      ''someone'' 4)) \<noteq> Some (take 200 (response_body (json_response 403)))"
  by (simp add: eval_simps)

text \<open>
  C6, amended. In any pass of the loop, when the request is answered with a status that
  is not from 200 to 299, not 409, 429 or 400 and not from 500 to 599, the check ends
  there: it returns the category \<open>error\<close> with that status as code and a detail of at
  most 200 characters, after one call of \<^verbatim>\<open>next()\<close> on the rotator, whose counter is one
  higher than before the pass, and after this one request. The detail is the first 200
  characters of the body when the content type does not announce JSON, and the first 200
  characters of the parsed body written out again when it does and the body parses to a
  value that counts as true.
\<close>

theorem unexpected_status_error_rotates_once:
  assumes "attempt < maxTries"
    and "remote (trace w) name (current (rot w)) = Responds res"
    and "\<not> (200 \<le> status res \<and> status res \<le> 299)"
    and "status res \<noteq> 409" and "status res \<noteq> 429" and "status res \<noteq> 400"
    and "\<not> (500 \<le> status res \<and> status res \<le> 599)"
  shows "username (snd (checkUsername_loop remote name maxTries attempt w)) = name \<and>
         category (snd (checkUsername_loop remote name maxTries attempt w)) = ''error'' \<and>
         code (snd (checkUsername_loop remote name maxTries attempt w)) = Some (status res) \<and>
         (case detail (snd (checkUsername_loop remote name maxTries attempt w)) of
            None \<Rightarrow> False
          | Some d \<Rightarrow> length d \<le> 200) \<and>
         (\<not> announces_json res \<longrightarrow>
            detail (snd (checkUsername_loop remote name maxTries attempt w)) =
              Some (take 200 (response_body res))) \<and>
         (\<forall>j. announces_json res \<and> json_text res = Some j \<longrightarrow>
            detail (snd (checkUsername_loop remote name maxTries attempt w)) =
              Some (take 200 j)) \<and>
         rot (fst (checkUsername_loop remote name maxTries attempt w)) =
           fst (next_proxy (rot w)) \<and>
         cursor (rot (fst (checkUsername_loop remote name maxTries attempt w))) =
           cursor (rot w) + 1 \<and>
         fetch_count (trace (fst (checkUsername_loop remote name maxTries attempt w))) =
           fetch_count (trace w) + 1"
  using assms
  by (auto simp: loop_unfold attempt_body_Responds on_response_def ok_def Let_def
        next_proxy_def safeReadBody_def announces_json_def response_body_def)

theorem unexpected_status_error_rotates_once_witness:
  "\<not> announces_json (plain_response 403 ''Forbidden'') \<and>
   snd (checkUsername (always (Responds (plain_response 403 ''Forbidden'')))
          (fresh_world two_proxies) ''someone'' 4)
     = \<lparr>username = ''someone'', category = ''error'', code = Some 403,
        detail = Some ''Forbidden''\<rparr> \<and>
   cursor (rot (fst (checkUsername (always (Responds (plain_response 403 ''Forbidden'')))
          (fresh_world two_proxies) ''someone'' 4))) = 1 \<and>
   fetch_count (trace (fst (checkUsername (always (Responds (plain_response 403 ''Forbidden'')))
          (fresh_world two_proxies) ''someone'' 4))) = 1 \<and>
   announces_json (json_response 403) \<and>
   detail (snd (checkUsername (always (Responds (json_response 403)))
          (fresh_world two_proxies) ''someone'' 4)) = Some ''[1,2]''"
proof -
  have j: "announces_json (json_response 403)"
    and p: "\<not> announces_json (plain_response 403 ''Forbidden'')"
    by (simp_all add: announces_json_def json_response_def plain_response_def
          str_includes_def sublist_code(3) prefix_code(2))
  from j p
    unexpected_status_error_rotates_once
      [of 0 4 "always (Responds (plain_response 403 ''Forbidden''))" "fresh_world two_proxies"
          "''someone''" "plain_response 403 ''Forbidden''"]
    unexpected_status_error_rotates_once
      [of 0 4 "always (Responds (json_response 403))" "fresh_world two_proxies"
          "''someone''" "json_response 403"]
  show ?thesis
    by (simp add: checkUsername_def MIN_LEN_def always_def plain_response_def
          json_response_def response_body_def fresh_world_def createProxyRotator_def
          fetch_count_def current_def two_proxies_def next_proxy_def)
qed

text \<open>
  C7. In any pass of the loop, when the request throws: if \<open>isProxyError\<close> matches the
  error (its message, or its string form when it has no message, contains one of the
  patterns for a reset connection, a timeout, a failed name lookup, a refused proxy login
  or a failed connection), \<^verbatim>\<open>next()\<close> is called on the rotator and the loop goes on
  with the next pass; otherwise the check ends with the category \<open>error\<close>, no code, and
  the first 200 characters of the string form of the error as detail.
\<close>

theorem transport_failure_handling:
  assumes "attempt < maxTries"
    and "remote (trace w) name (current (rot w)) = Throws err"
  shows "(isProxyError err \<longrightarrow>
            checkUsername_loop remote name maxTries attempt w =
              checkUsername_loop remote name maxTries (attempt + 1)
                (sleep BASE_DELAY_MS
                   (sleep 200 (advance (emit (Fetch name (current (rot w))) w))))) \<and>
         (\<not> isProxyError err \<longrightarrow>
            checkUsername_loop remote name maxTries attempt w =
              (sleep BASE_DELAY_MS (emit (Fetch name (current (rot w))) w),
               \<lparr>username = name, category = ''error'', code = None,
                detail = Some (take 200 (as_string err))\<rparr>) \<and>
            length (take 200 (as_string err)) \<le> 200)"
  using assms
  by (simp add: loop_unfold attempt_body_Throws on_error_def)

theorem transport_failure_handling_witness:
  "isProxyError abort_error \<and>
   checkUsername_loop (always (Throws abort_error)) ''someone'' 4 0 (fresh_world two_proxies) =
     checkUsername_loop (always (Throws abort_error)) ''someone'' 4 1
       \<lparr>rot = \<lparr>proxies = two_proxies, cursor = 1\<rparr>,
        trace = [Fetch ''someone'' (Some ''http://10.0.0.1:8080''), Sleep 200, Sleep 120]\<rparr> \<and>
   \<not> isProxyError url_error \<and>
   checkUsername_loop (always (Throws url_error)) ''someone'' 4 0 (fresh_world two_proxies) =
     (\<lparr>rot = \<lparr>proxies = two_proxies, cursor = 0\<rparr>,
       trace = [Fetch ''someone'' (Some ''http://10.0.0.1:8080''), Sleep 120]\<rparr>,
      \<lparr>username = ''someone'', category = ''error'', code = None,
       detail = Some ''TypeError: Invalid URL''\<rparr>)"
proof -
  have a: "isProxyError abort_error" and u: "\<not> isProxyError url_error"
    by (simp_all add: isProxyError_def abort_error_def url_error_def str_includes_def
          sublist_code(3) prefix_code(2))
  have w: "current (rot (fresh_world two_proxies)) = Some ''http://10.0.0.1:8080''"
    and t: "trace (fresh_world two_proxies) = []"
    and r: "rot (fresh_world two_proxies) = \<lparr>proxies = two_proxies, cursor = 0\<rparr>"
    by (simp_all add: fresh_world_def createProxyRotator_def current_def two_proxies_def)
  from a u w t r
    transport_failure_handling [of 0 4 "always (Throws abort_error)" "fresh_world two_proxies"
      "''someone''" abort_error]
    transport_failure_handling [of 0 4 "always (Throws url_error)" "fresh_world two_proxies"
      "''someone''" url_error]
  show ?thesis
    by (simp add: always_def url_error_def sleep_def emit_def advance_def next_proxy_def
          BASE_DELAY_MS_def fresh_world_def createProxyRotator_def Let_def)
qed

text \<open>
  C9. Over an empty list of names \<open>run\<close> returns at once: its only effect is the line
  \<open>usernames.txt is empty\<close> on the console. No file is reset, opened or written, no
  request is made, and there is no state of the run, so no result. A run over a list
  that is not empty ends with a state.
\<close>

theorem run_empty_short_circuits:
  "run remote [] ps = ([ConsoleLog ''usernames.txt is empty''], None) \<and>
   fetch_count (fst (run remote [] ps)) = 0 \<and>
   (usernames \<noteq> [] \<longrightarrow> snd (run remote usernames ps) \<noteq> None)"
  by (simp add: run_def fetch_count_def Let_def case_prod_beta)

theorem run_empty_short_circuits_witness:
  "run scenario_remote [] two_proxies = ([ConsoleLog ''usernames.txt is empty''], None) \<and>
   [''ab''] \<noteq> [] \<and>
   take 4 (fst (run scenario_remote [''ab''] two_proxies)) =
     [WriteFileSync ''available.txt'' [], WriteFileSync ''taken.txt'' [],
      WriteFileSync ''invalid.txt'' [], WriteFileSync ''errors.txt'' []]"
  using run_empty_short_circuits [of scenario_remote two_proxies "[''ab'']"]
  by (simp add: eval_simps)

text \<open>
  C10. A check that ends at the length test leaves the rotator as it was. A pass whose
  request ends in a decisive outcome (a status from 200 to 299, 409 or 400) leaves the
  rotator as it was. A pass changes the rotator only when its request ends in a 429, a
  status from 500 to 599, an unexpected status or a transport failure that
  \<open>isProxyError\<close> matches, and on each of those the counter goes up by one.
\<close>

theorem decisive_outcome_keeps_cursor:
  "(length name < MIN_LEN \<longrightarrow> rot (fst (checkUsername remote w name maxTries)) = rot w) \<and>
   (decisive (remote (trace w) name (current (rot w))) \<longrightarrow>
      rot (fst (attempt_body remote w name)) = rot w) \<and>
   (rot (fst (attempt_body remote w name)) \<noteq> rot w \<longrightarrow>
      advancing (remote (trace w) name (current (rot w)))) \<and>
   (advancing (remote (trace w) name (current (rot w))) \<longrightarrow>
      cursor (rot (fst (attempt_body remote w name))) = cursor (rot w) + 1)"
  by (cases "remote (trace w) name (current (rot w))")
     (auto simp: checkUsername_def attempt_body_Responds attempt_body_Throws on_response_def
        on_error_def ok_def Let_def unexpected_status_def)

theorem decisive_outcome_keeps_cursor_witness:
  "length ''ab'' < MIN_LEN \<and>
   rot (fst (checkUsername scenario_remote (fresh_world two_proxies) ''ab'' 4))
     = rot (fresh_world two_proxies) \<and>
   decisive (scenario_remote [] ''taken1'' (Some ''http://10.0.0.1:8080'')) \<and>
   rot (fst (attempt_body scenario_remote (fresh_world two_proxies) ''taken1''))
     = rot (fresh_world two_proxies) \<and>
   advancing (always (Responds (plain_response 429 [])) [] ''someone''
     (Some ''http://10.0.0.1:8080'')) \<and>
   cursor (rot (fst (attempt_body (always (Responds (plain_response 429 [])))
     (fresh_world two_proxies) ''someone''))) = 1"
proof -
  have w: "current (rot (fresh_world two_proxies)) = Some ''http://10.0.0.1:8080''"
    and t: "trace (fresh_world two_proxies) = []"
    and c: "cursor (rot (fresh_world two_proxies)) = 0"
    by (simp_all add: fresh_world_def createProxyRotator_def current_def two_proxies_def)
  from w t c
    decisive_outcome_keeps_cursor [of "''ab''" scenario_remote "fresh_world two_proxies" 4]
    decisive_outcome_keeps_cursor [of "''taken1''" scenario_remote "fresh_world two_proxies" 4]
    decisive_outcome_keeps_cursor [of "''someone''" "always (Responds (plain_response 429 []))"
      "fresh_world two_proxies" 4]
  show ?thesis
    by (simp add: MIN_LEN_def scenario_remote_def always_def plain_response_def)
qed

end
